theory Spec2Isabelle
  imports Complex_Main "HOL-Library.Word"
begin

unbundle bit_operations_syntax

section \<open>Exceptions as values\<close>

text \<open>
  Every exception the modelled Python code can raise is a value of \<open>error\<close>; a function
  that may raise returns \<open>error + 'a\<close> with \<open>Inl\<close> for the exception. \<open>ebind\<close> runs the
  next statement only when the previous one has not raised.
\<close>

datatype error =
    ValueError string
  | ZeroDivisionError
  | StatisticsError
  | TypeError
  | OverflowError
  | StructError
  | ZlibError
  | IndexError
  | KeyError

definition ebind :: "error + 'a \<Rightarrow> ('a \<Rightarrow> error + 'b) \<Rightarrow> error + 'b" where
  "ebind m f = (case m of Inl e \<Rightarrow> Inl e | Inr v \<Rightarrow> f v)"

text \<open>
  \<open>_manual_welchs_ttest\<close> raises \<open>ValueError\<close> with a fixed message when a sample is too
  short; the specification calls this error \<open>InsufficientSamples\<close>.
\<close>

definition InsufficientSamples :: error where
  "InsufficientSamples = ValueError ''Samples must have at least two observations for a t-test.''"

section \<open>Floating-point arithmetic\<close>

text \<open>
  A Python float that is finite is modelled by the real number it denotes. The arithmetic
  of the platform is a parameter \<open>F\<close>: \<open>rnd F\<close> rounds an exact result to the float
  format, so that \<open>a + b\<close> of the source is \<open>rnd F (a + b)\<close>; \<open>m_log\<close>, \<open>m_exp\<close>,
  \<open>m_lgamma\<close> and \<open>m_pow\<close> are the functions of the C mathematics library behind
  \<open>math.log\<close>, \<open>math.exp\<close>, \<open>math.lgamma\<close> and \<open>**\<close>. Theorems that hold for every
  \<open>F\<close> hold for the real machine as long as no intermediate result is an infinity or a
  NaN, which are outside this model. Division by zero and the domain errors of the
  \<open>math\<close> module are modelled as the exceptions Python raises.
\<close>

record fp =
  rnd :: "real \<Rightarrow> real"
  m_log :: "real \<Rightarrow> real"
  m_exp :: "real \<Rightarrow> real"
  m_lgamma :: "real \<Rightarrow> real"
  m_pow :: "real \<Rightarrow> real \<Rightarrow> real"

definition fadd :: "fp \<Rightarrow> real \<Rightarrow> real \<Rightarrow> real" where
  "fadd F a b = rnd F (a + b)"

definition fsub :: "fp \<Rightarrow> real \<Rightarrow> real \<Rightarrow> real" where
  "fsub F a b = rnd F (a - b)"

definition fmul :: "fp \<Rightarrow> real \<Rightarrow> real \<Rightarrow> real" where
  "fmul F a b = rnd F (a * b)"

definition fdiv :: "fp \<Rightarrow> real \<Rightarrow> real \<Rightarrow> error + real" where
  "fdiv F a b = (if b = 0 then Inl ZeroDivisionError else Inr (rnd F (a / b)))"

definition math_sqrt :: "fp \<Rightarrow> real \<Rightarrow> error + real" where
  "math_sqrt F a = (if a < 0 then Inl (ValueError ''math domain error'') else Inr (rnd F (sqrt a)))"

definition math_log :: "fp \<Rightarrow> real \<Rightarrow> error + real" where
  "math_log F a = (if a \<le> 0 then Inl (ValueError ''math domain error'') else Inr (m_log F a))"

definition math_lgamma :: "fp \<Rightarrow> real \<Rightarrow> error + real" where
  \<comment> \<open>the poles of the gamma function are the non-positive integers\<close>
  "math_lgamma F a =
     (if a \<le> 0 \<and> a = of_int \<lfloor>a\<rfloor> then Inl (ValueError ''math domain error'')
      else Inr (m_lgamma F a))"

definition float_pow :: "fp \<Rightarrow> real \<Rightarrow> real \<Rightarrow> error + real" where
  \<comment> \<open>\<open>a ** b\<close> on floats: zero to a negative power raises; a negative base with a
      fractional exponent gives a complex number, and \<open>_student_t_cdf\<close>, where alone the
      exponent can be fractional, ends by comparing it with a float, a \<open>TypeError\<close>\<close>
  "float_pow F a b =
     (if a = 0 \<and> b < 0 then Inl ZeroDivisionError
      else if a < 0 \<and> b \<noteq> of_int \<lfloor>b\<rfloor> then Inl TypeError
      else Inr (m_pow F a b))"

text \<open>
  The rounding of CPython's floats: IEEE 754 binary64, round to nearest, ties to even,
  with 53 significant bits, least exponent \<open>-1022\<close> and gradual underflow. Results beyond
  the largest float, which the format turns into an infinity, are not modelled.
\<close>

definition round_half_even :: "real \<Rightarrow> int" where
  "round_half_even y =
     (let f = \<lfloor>y\<rfloor>; d = y - of_int f
      in if d < 1/2 then f else if d > 1/2 then f + 1 else if even f then f else f + 1)"

definition binary64 :: "real \<Rightarrow> real" where
  "binary64 a =
     (if a = 0 then 0
      else let e = max \<lfloor>log 2 \<bar>a\<bar>\<rfloor> (- 1022);
               ulp = 2 powr (of_int e - 52)
           in ulp * of_int (round_half_even (a / ulp)))"


section \<open>The \<open>statistics\<close> module\<close>

text \<open>
  \<open>statistics.mean\<close> and \<open>statistics.variance\<close> compute with exact fractions and convert
  the result to a float once (CPython 3.11 and later). \<open>variance\<close> divides the sum of the
  squared deviations from the exact mean by \<open>n - 1\<close>.
\<close>

definition mean :: "fp \<Rightarrow> real list \<Rightarrow> error + real" where
  "mean F xs =
     (if length xs < 1 then Inl StatisticsError
      else Inr (rnd F (sum_list xs / real (length xs))))"

definition variance :: "fp \<Rightarrow> real list \<Rightarrow> error + real" where
  "variance F xs =
     (if length xs < 2 then Inl StatisticsError
      else let c = sum_list xs / real (length xs)
           in Inr (rnd F ((\<Sum>x\<leftarrow>xs. (x - c)\<^sup>2) / (real (length xs) - 1))))"

section \<open>Student-t distribution\<close>

text \<open>
  \<open>_student_t_coeff\<close> is memoised with \<open>lru_cache\<close>; it is a function of \<open>df\<close> alone, so
  the cache does not change what it returns. Overflow in \<open>math.exp\<close> is not modelled.
\<close>

definition student_t_coeff :: "fp \<Rightarrow> real \<Rightarrow> error + real" where
  "student_t_coeff F df =
     ebind (fdiv F (fadd F df 1) 2) (\<lambda>a.
     ebind (math_lgamma F a) (\<lambda>lgamma_num.
     ebind (fdiv F df 2) (\<lambda>b.
     ebind (math_lgamma F b) (\<lambda>lgamma_den.
     ebind (math_log F df) (\<lambda>ldf.
     ebind (math_log F (rnd F pi)) (\<lambda>lpi.
       let log_coeff = fsub F (fsub F lgamma_num lgamma_den) (fmul F (1/2) (fadd F ldf lpi))
       in Inr (m_exp F log_coeff)))))))"

definition student_t_pdf :: "fp \<Rightarrow> real \<Rightarrow> real \<Rightarrow> error + real" where
  "student_t_pdf F x df =
     ebind (student_t_coeff F df) (\<lambda>coeff.
     ebind (fdiv F (fmul F x x) df) (\<lambda>q.
     ebind (fdiv F (- fadd F df 1) 2) (\<lambda>e.
     ebind (float_pow F (fadd F 1 q) e) (\<lambda>p.
       Inr (fmul F coeff p)))))"

text \<open>The number of Simpson intervals: the choice, then the adjustment to an even count.\<close>

definition initial_intervals :: "real \<Rightarrow> int" where
  "initial_intervals x = (if x < 10 then 1000 else 2000)"

definition even_intervals :: "int \<Rightarrow> int" where
  "even_intervals n = (if n mod 2 = 1 then n + 1 else n)"

text \<open>The loop \<open>for i in range(1, n_intervals)\<close>, stopping at the first exception.\<close>

function simpson_loop :: "fp \<Rightarrow> real \<Rightarrow> real \<Rightarrow> int \<Rightarrow> int \<Rightarrow> real \<Rightarrow> error + real" where
  "simpson_loop F h df n i total_acc =
     (if i < n then
        (case student_t_pdf F (fmul F (of_int i) h) df of
           Inl e \<Rightarrow> Inl e
         | Inr p \<Rightarrow>
             let weight = (if i mod 2 = 1 then 4 else 2)
             in simpson_loop F h df n (i + 1) (fadd F total_acc (fmul F weight p)))
      else Inr total_acc)"
  by pat_completeness auto
termination
  by (relation "measure (\<lambda>(F, h, df, n, i, total_acc). nat (n - i))") auto

declare simpson_loop.simps [simp del]

definition student_t_cdf :: "fp \<Rightarrow> real \<Rightarrow> real \<Rightarrow> error + real" where
  "student_t_cdf F x df =
     (if x = 0 then Inr (1/2)
      else
        let sign = (if x > 0 then 1 else - 1);
            x = \<bar>x\<bar>;
            n_intervals = even_intervals (initial_intervals x)
        in
        ebind (fdiv F x (of_int n_intervals)) (\<lambda>h.
        ebind (student_t_pdf F 0 df) (\<lambda>p0.
        ebind (student_t_pdf F x df) (\<lambda>px.
        ebind (simpson_loop F h df n_intervals 1 (fadd F p0 px)) (\<lambda>total_acc.
        ebind (fdiv F h 3) (\<lambda>h3.
          let integral = fmul F h3 total_acc;
              cdf = fadd F (1/2) (fmul F sign integral)
          in Inr (max 0 (min 1 cdf))))))))"


definition two_tailed_p_value :: "fp \<Rightarrow> real \<Rightarrow> real \<Rightarrow> error + real" where
  "two_tailed_p_value F t_stat df =
     (if df \<le> 0 then Inr 1
      else ebind (student_t_cdf F t_stat df) (\<lambda>cdf.
             Inr (max (min (fmul F 2 (min cdf (fsub F 1 cdf))) 1) 0)))"

section \<open>Welch's t-test\<close>

text \<open>The expression \<open>math.sqrt(var1 / n1 + var2 / n2)\<close>\<close>

definition standard_error :: "fp \<Rightarrow> real \<Rightarrow> nat \<Rightarrow> real \<Rightarrow> nat \<Rightarrow> error + real" where
  "standard_error F var1 n1 var2 n2 =
     ebind (fdiv F var1 (real n1)) (\<lambda>q1.
     ebind (fdiv F var2 (real n2)) (\<lambda>q2.
       math_sqrt F (fadd F q1 q2)))"

text \<open>The three statements that compute \<open>numerator\<close>, \<open>denominator\<close> and \<open>df\<close>\<close>

definition welch_df :: "fp \<Rightarrow> real \<Rightarrow> nat \<Rightarrow> real \<Rightarrow> nat \<Rightarrow> error + real" where
  "welch_df F var1 n1 var2 n2 =
     ebind (fdiv F var1 (real n1)) (\<lambda>q1.
     ebind (fdiv F var2 (real n2)) (\<lambda>q2.
     ebind (float_pow F (fadd F q1 q2) 2) (\<lambda>numerator.
     ebind (fdiv F var1 (real n1)) (\<lambda>q1.
     ebind (float_pow F q1 2) (\<lambda>s1.
     ebind (fdiv F s1 (real n1 - 1)) (\<lambda>d1.
     ebind (fdiv F var2 (real n2)) (\<lambda>q2.
     ebind (float_pow F q2 2) (\<lambda>s2.
     ebind (fdiv F s2 (real n2 - 1)) (\<lambda>d2.
       let denominator = fadd F d1 d2
       in fdiv F numerator denominator)))))))))"

definition manual_welchs_ttest :: "fp \<Rightarrow> real list \<Rightarrow> real list \<Rightarrow> error + real \<times> real" where
  "manual_welchs_ttest F sample_a sample_b =
     (let n1 = length sample_a; n2 = length sample_b in
      if n1 < 2 \<or> n2 < 2 then Inl InsufficientSamples
      else
        ebind (mean F sample_a) (\<lambda>mean1.
        ebind (mean F sample_b) (\<lambda>mean2.
        ebind (variance F sample_a) (\<lambda>var1.
        ebind (variance F sample_b) (\<lambda>var2.
        ebind (standard_error F var1 n1 var2 n2) (\<lambda>se.
          if se = 0 then Inr (0, 1)
          else
            ebind (fdiv F (fsub F mean1 mean2) se) (\<lambda>t_stat.
            ebind (welch_df F var1 n1 var2 n2) (\<lambda>df.
            ebind (two_tailed_p_value F t_stat df) (\<lambda>p_value.
              Inr (t_stat, p_value))))))))))"

section \<open>Canvas and bitmap font\<close>

text \<open>
  A canvas is a list of rows, a row a list of pixels, a pixel a list of integers
  \<open>[r, g, b]\<close>. A character of a Python string is a Unicode code point. A glyph is a
  list of strings, one per row, with \<open>1\<close> for a lit cell.
\<close>

type_synonym codepoint = nat
type_synonym glyph = "string list"
type_synonym pixel = "int list"
type_synonym canvas = "pixel list list"

definition create_canvas :: "int \<Rightarrow> int \<Rightarrow> int \<times> int \<times> int \<Rightarrow> canvas" where
  "create_canvas width height color =
     (case color of (c0, c1, c2) \<Rightarrow> replicate (nat height) (replicate (nat width) [c0, c1, c2]))"

text \<open>The dictionary \<open>FONT\<close> of \<open>_fallback_plot\<close>, entry by entry.\<close>

definition FONT_items :: "(char \<times> glyph) list" where
  "FONT_items =
    [(CHR ''A'', ['' 1 '', ''1 1'', ''111'', ''1 1'', ''1 1'']),
     (CHR ''B'', [''11 '', ''1 1'', ''11 '', ''1 1'', ''11 '']),
     (CHR ''C'', ['' 11'', ''1  '', ''1  '', ''1  '', '' 11'']),
     (CHR ''D'', [''11 '', ''1 1'', ''1 1'', ''1 1'', ''11 '']),
     (CHR ''E'', [''111'', ''1  '', ''11 '', ''1  '', ''111'']),
     (CHR ''F'', [''111'', ''1  '', ''11 '', ''1  '', ''1  '']),
     (CHR ''G'', ['' 11'', ''1  '', ''1  '', ''1 1'', '' 11'']),
     (CHR ''H'', [''1 1'', ''1 1'', ''111'', ''1 1'', ''1 1'']),
     (CHR ''I'', [''111'', '' 1 '', '' 1 '', '' 1 '', ''111'']),
     (CHR ''K'', [''1 1'', ''11 '', ''1  '', ''11 '', ''1 1'']),
     (CHR ''L'', [''1  '', ''1  '', ''1  '', ''1  '', ''111'']),
     (CHR ''M'', [''1 1'', ''111'', ''111'', ''1 1'', ''1 1'']),
     (CHR ''N'', [''1 1'', ''111'', ''111'', ''111'', ''1 1'']),
     (CHR ''O'', [''111'', ''1 1'', ''1 1'', ''1 1'', ''111'']),
     (CHR ''P'', [''111'', ''1 1'', ''111'', ''1  '', ''1  '']),
     (CHR ''R'', [''111'', ''1 1'', ''111'', ''11 '', ''1 1'']),
     (CHR ''S'', ['' 11'', ''1  '', ''111'', ''  1'', ''11 '']),
     (CHR ''T'', [''111'', '' 1 '', '' 1 '', '' 1 '', '' 1 '']),
     (CHR ''U'', [''1 1'', ''1 1'', ''1 1'', ''1 1'', ''111'']),
     (CHR ''V'', [''1 1'', ''1 1'', ''1 1'', ''1 1'', '' 1 '']),
     (CHR ''Z'', [''111'', ''  1'', '' 1 '', ''1  '', ''111'']),
     (CHR '' '', [''   '', ''   '', ''   '', ''   '', ''   '']),
     (CHR ''('', ['' 1'', ''1 '', ''1 '', ''1 '', '' 1'']),
     (CHR '')'', [''1 '', '' 1'', '' 1'', '' 1'', ''1 '']),
     (CHR ''-'', [''   '', ''   '', ''111'', ''   '', ''   '']),
     (CHR ''='', [''   '', ''111'', ''   '', ''111'', ''   '']),
     (CHR '':'', [''   '', '' 1 '', ''   '', '' 1 '', ''   '']),
     (CHR ''0'', [''111'', ''1 1'', ''1 1'', ''1 1'', ''111'']),
     (CHR ''1'', ['' 1 '', ''11 '', '' 1 '', '' 1 '', ''111'']),
     (CHR ''2'', [''111'', ''  1'', ''111'', ''1  '', ''111'']),
     (CHR ''3'', [''111'', ''  1'', ''111'', ''  1'', ''111'']),
     (CHR ''4'', [''1 1'', ''1 1'', ''111'', ''  1'', ''  1'']),
     (CHR ''5'', [''111'', ''1  '', ''111'', ''  1'', ''111'']),
     (CHR ''6'', [''111'', ''1  '', ''111'', ''1 1'', ''111'']),
     (CHR ''7'', [''111'', ''  1'', '' 1 '', '' 1 '', '' 1 '']),
     (CHR ''8'', [''111'', ''1 1'', ''111'', ''1 1'', ''111'']),
     (CHR ''9'', [''111'', ''1 1'', ''111'', ''  1'', ''111'']),
     (CHR ''.'', [''   '', ''   '', ''   '', ''   '', '' 1 '']),
     (CHR '','', [''   '', ''   '', ''   '', '' 1 '', '' 1 ''])]"

text \<open>The font maps the code points of its keys to their glyphs; no key occurs twice.\<close>

definition FONT :: "codepoint \<rightharpoonup> glyph" where
  "FONT = map_of (map (\<lambda>(c, g). (of_char c, g)) FONT_items)"

text \<open>\<open>FONT[ch]\<close> raises \<open>KeyError\<close> for a missing key; \<open>FONT.get(ch, d)\<close> does not.\<close>

definition FONT_getitem :: "codepoint \<Rightarrow> error + glyph" where
  "FONT_getitem ch = (case FONT ch of None \<Rightarrow> Inl KeyError | Some g \<Rightarrow> Inr g)"

definition space :: codepoint where
  "space = of_char (CHR '' '')"

text \<open>
  \<open>text.upper()\<close> maps every character to its upper-case form, which for some characters
  beyond ASCII is more than one character. The ASCII part is written out; \<open>ext\<close> is the
  mapping of Python for the other code points.
\<close>

definition upper_char :: "(codepoint \<Rightarrow> codepoint list) \<Rightarrow> codepoint \<Rightarrow> codepoint list" where
  "upper_char ext ch =
     (if ch < 128 then [if of_char (CHR ''a'') \<le> ch \<and> ch \<le> of_char (CHR ''z'') then ch - 32 else ch]
      else ext ch)"

definition str_upper :: "(codepoint \<Rightarrow> codepoint list) \<Rightarrow> codepoint list \<Rightarrow> codepoint list" where
  "str_upper ext text = concat (map (upper_char ext) text)"

text \<open>
  Two entries of Python's upper-casing beyond ASCII, for examples: U+0390 (Greek small
  iota with dialytika and tonos) becomes the three code points U+0399, U+0308, U+0301,
  and U+00DF (sharp s) becomes \<open>SS\<close>. Every other code point is left as it is here.
\<close>

definition special_casing :: "codepoint \<Rightarrow> codepoint list" where
  "special_casing ch =
     (if ch = 0x390 then [0x399, 0x308, 0x301]
      else if ch = 0xDF then [0x53, 0x53]
      else [ch])"

text \<open>List indexing: a negative index counts from the end, an index out of range raises.\<close>

definition py_index :: "nat \<Rightarrow> int \<Rightarrow> error + nat" where
  "py_index n i =
     (let j = (if i < 0 then int n + i else i)
      in if 0 \<le> j \<and> j < int n then Inr (nat j) else Inl IndexError)"

text \<open>\<open>canvas[py][px] = v\<close>\<close>

definition set_pixel :: "canvas \<Rightarrow> int \<Rightarrow> int \<Rightarrow> pixel \<Rightarrow> error + canvas" where
  "set_pixel cv py px v =
     ebind (py_index (length cv) py) (\<lambda>r.
     ebind (py_index (length (cv ! r)) px) (\<lambda>c.
       Inr (cv[r := (cv ! r)[c := v]])))"

text \<open>
  \<open>draw_text\<close> is a closure of \<open>_fallback_plot\<close> over \<open>width\<close>, \<open>height\<close> and the canvas
  it mutates: here they are arguments, and the canvas is returned. The three loops, from
  the innermost (\<open>for gx, val in enumerate(row)\<close>) to the outermost
  (\<open>for ch in text.upper()\<close>, which carries the cursor \<open>x\<close>):
\<close>

fun draw_glyph_row ::
  "int \<Rightarrow> int \<Rightarrow> int \<Rightarrow> int \<Rightarrow> int \<Rightarrow> int \<times> int \<times> int \<Rightarrow> string \<Rightarrow> int \<Rightarrow> canvas \<Rightarrow> error + canvas"
where
  "draw_glyph_row width height x y gy color [] gx cv = Inr cv"
| "draw_glyph_row width height x y gy color (val # vals) gx cv =
     (case (if val = CHR ''1'' then
              (let px = x + gx; py = y + gy
               in if 0 \<le> px \<and> px < width \<and> 0 \<le> py \<and> py < height
                  then set_pixel cv py px [fst color, fst (snd color), snd (snd color)]
                  else Inr cv)
            else Inr cv) of
        Inl e \<Rightarrow> Inl e
      | Inr cv' \<Rightarrow> draw_glyph_row width height x y gy color vals (gx + 1) cv')"

fun draw_glyph ::
  "int \<Rightarrow> int \<Rightarrow> int \<Rightarrow> int \<Rightarrow> int \<times> int \<times> int \<Rightarrow> glyph \<Rightarrow> int \<Rightarrow> canvas \<Rightarrow> error + canvas"
where
  "draw_glyph width height x y color [] gy cv = Inr cv"
| "draw_glyph width height x y color (row # rows) gy cv =
     (case draw_glyph_row width height x y gy color row 0 cv of
        Inl e \<Rightarrow> Inl e
      | Inr cv' \<Rightarrow> draw_glyph width height x y color rows (gy + 1) cv')"

text \<open>The glyph \<open>FONT.get(ch, FONT[" "])\<close> that \<open>draw_text\<close> draws for \<open>ch\<close>: the default is evaluated first.\<close>

definition lookup_glyph :: "codepoint \<Rightarrow> error + glyph" where
  "lookup_glyph ch =
     ebind (FONT_getitem space) (\<lambda>blank.
       Inr (case FONT ch of Some g \<Rightarrow> g | None \<Rightarrow> blank))"

definition draw_char ::
  "int \<Rightarrow> int \<Rightarrow> int \<Rightarrow> int \<times> int \<times> int \<Rightarrow> codepoint \<Rightarrow> int \<Rightarrow> canvas \<Rightarrow> error + canvas \<times> int"
where
  "draw_char width height y color ch x cv =
     ebind (lookup_glyph ch) (\<lambda>glyph.
     ebind (draw_glyph width height x y color glyph 0 cv) (\<lambda>cv'.
     ebind (case glyph of [] \<Rightarrow> Inl IndexError | row0 # _ \<Rightarrow> Inr row0) (\<lambda>row0.
       Inr (cv', x + (int (length row0) + 1)))))"

fun draw_chars ::
  "int \<Rightarrow> int \<Rightarrow> int \<Rightarrow> int \<times> int \<times> int \<Rightarrow> codepoint list \<Rightarrow> int \<Rightarrow> canvas \<Rightarrow> error + canvas \<times> int"
where
  "draw_chars width height y color [] x cv = Inr (cv, x)"
| "draw_chars width height y color (ch # chs) x cv =
     (case draw_char width height y color ch x cv of
        Inl e \<Rightarrow> Inl e
      | Inr (cv', x') \<Rightarrow> draw_chars width height y color chs x' cv')"

definition draw_text ::
  "int \<Rightarrow> int \<Rightarrow> (codepoint \<Rightarrow> codepoint list) \<Rightarrow> codepoint list \<Rightarrow> int \<Rightarrow> int \<Rightarrow> int \<times> int \<times> int
     \<Rightarrow> canvas \<Rightarrow> error + canvas"
where
  "draw_text width height ext text x y color cv =
     ebind (draw_chars width height y color (str_upper ext text) x cv) (\<lambda>(cv', x'). Inr cv')"

text \<open>A canvas of the given width and height, as \<open>_create_canvas\<close> builds it.\<close>

definition canvas_ok :: "int \<Rightarrow> int \<Rightarrow> canvas \<Rightarrow> bool" where
  "canvas_ok width height cv \<longleftrightarrow>
     int (length cv) = height \<and> (\<forall>row \<in> set cv. int (length row) = width)"

section \<open>PNG encoder\<close>

type_synonym byte = "8 word"

text \<open>\<open>zlib.crc32\<close>: the CRC-32 of PNG and zlib, polynomial \<open>0xEDB88320\<close> (reflected), bit by bit.\<close>

definition crc32_bit :: "32 word \<Rightarrow> 32 word" where
  "crc32_bit c = (if c AND 1 = 1 then drop_bit 1 c XOR 0xEDB88320 else drop_bit 1 c)"

definition crc32_byte :: "32 word \<Rightarrow> byte \<Rightarrow> 32 word" where
  "crc32_byte c b =
     crc32_bit (crc32_bit (crc32_bit (crc32_bit (crc32_bit (crc32_bit (crc32_bit (crc32_bit
       (c XOR ucast b))))))))"

definition crc32 :: "byte list \<Rightarrow> 32 word" where
  "crc32 bs = foldl crc32_byte 0xFFFFFFFF bs XOR 0xFFFFFFFF"

text \<open>The four bytes of a 32-bit value, most significant first.\<close>

definition be32 :: "32 word \<Rightarrow> byte list" where
  "be32 w = [ucast (drop_bit 24 w), ucast (drop_bit 16 w), ucast (drop_bit 8 w), ucast w]"

text \<open>\<open>n.to_bytes(4, "big")\<close>\<close>

definition to_bytes4 :: "int \<Rightarrow> error + byte list" where
  "to_bytes4 n = (if 0 \<le> n \<and> n < 2 ^ 32 then Inr (be32 (word_of_int n)) else Inl OverflowError)"

text \<open>\<open>struct.pack(">IIBBBBB", a, b, c, d, e, f, g)\<close>\<close>

definition struct_pack_IIBBBBB :: "int \<Rightarrow> int \<Rightarrow> int \<Rightarrow> int \<Rightarrow> int \<Rightarrow> int \<Rightarrow> int \<Rightarrow> error + byte list" where
  "struct_pack_IIBBBBB a b c d e f g =
     (if (\<forall>v \<in> set [a, b]. 0 \<le> v \<and> v < 2 ^ 32) \<and> (\<forall>v \<in> set [c, d, e, f, g]. 0 \<le> v \<and> v < 2 ^ 8)
      then Inr (be32 (word_of_int a) @ be32 (word_of_int b) @ map word_of_int [c, d, e, f, g])
      else Inl StructError)"

text \<open>\<open>bytes(pixel)\<close> for a list of integers\<close>

definition bytes_of :: "int list \<Rightarrow> error + byte list" where
  "bytes_of vs =
     (if \<forall>v \<in> set vs. 0 \<le> v \<and> v < 256 then Inr (map word_of_int vs)
      else Inl (ValueError ''bytes must be in range(0, 256)''))"

text \<open>A bytes literal such as \<open>b"IHDR"\<close>\<close>

definition ascii :: "string \<Rightarrow> byte list" where
  "ascii s = map of_char s"

text \<open>The inner function \<open>chunk\<close> of \<open>_write_png\<close>\<close>

definition chunk :: "byte list \<Rightarrow> byte list \<Rightarrow> error + byte list" where
  "chunk chunk_type data =
     (let crc = crc32 (chunk_type @ data) AND 0xFFFFFFFF in
      ebind (to_bytes4 (int (length data))) (\<lambda>len.
      ebind (to_bytes4 (uint crc)) (\<lambda>crc_bytes.
        Inr (len @ chunk_type @ data @ crc_bytes))))"

text \<open>The loops that fill \<open>raw_data\<close>: over the pixels of a row, and over the rows.\<close>

fun extend_pixels :: "pixel list \<Rightarrow> byte list \<Rightarrow> error + byte list" where
  "extend_pixels [] raw_data = Inr raw_data"
| "extend_pixels (pixel # row) raw_data =
     (case bytes_of pixel of
        Inl e \<Rightarrow> Inl e
      | Inr bs \<Rightarrow> extend_pixels row (raw_data @ bs))"

fun append_rows :: "canvas \<Rightarrow> byte list \<Rightarrow> error + byte list" where
  "append_rows [] raw_data = Inr raw_data"
| "append_rows (row # rows) raw_data =
     (case extend_pixels row (raw_data @ [0]) of
        Inl e \<Rightarrow> Inl e
      | Inr raw_data' \<Rightarrow> append_rows rows raw_data')"

text \<open>
  \<open>_write_png\<close> writes to a file and returns nothing: a run is described by the bytes
  written to the file (\<open>None\<close> when the file was never opened) and by the exception
  that ended it, if any. \<open>zlib.compress\<close> at level 9 is the parameter \<open>compress\<close>.
  Opening the file and writing to it are taken to succeed.
\<close>

record png_run =
  written :: "byte list option"
  raised :: "error option"

definition png_signature :: "byte list" where
  "png_signature = [0x89, 0x50, 0x4E, 0x47, 0x0D, 0x0A, 0x1A, 0x0A]"

definition write_png :: "(byte list \<Rightarrow> error + byte list) \<Rightarrow> canvas \<Rightarrow> png_run" where
  "write_png compress rgb_matrix =
     (let height = int (length rgb_matrix);
          width = (if height \<noteq> 0 then int (length (hd rgb_matrix)) else 0)
      in
      case append_rows rgb_matrix [] of
        Inl e \<Rightarrow> \<lparr>written = None, raised = Some e\<rparr>
      | Inr raw_data \<Rightarrow>
          let file1 = png_signature in
          (case ebind (struct_pack_IIBBBBB width height 8 2 0 0 0) (chunk (ascii ''IHDR'')) of
             Inl e \<Rightarrow> \<lparr>written = Some file1, raised = Some e\<rparr>
           | Inr ihdr \<Rightarrow>
               let file2 = file1 @ ihdr in
               (case ebind (compress raw_data) (chunk (ascii ''IDAT'')) of
                  Inl e \<Rightarrow> \<lparr>written = Some file2, raised = Some e\<rparr>
                | Inr idat \<Rightarrow>
                    let file3 = file2 @ idat in
                    (case chunk (ascii ''IEND'') [] of
                       Inl e \<Rightarrow> \<lparr>written = Some file3, raised = Some e\<rparr>
                     | Inr iend \<Rightarrow> \<lparr>written = Some (file3 @ iend), raised = None\<rparr>))))"


text \<open>Every pixel is a triple of channels between 0 and 255.\<close>

definition rgb_pixels :: "canvas \<Rightarrow> bool" where
  "rgb_pixels cv \<longleftrightarrow>
     (\<forall>row \<in> set cv. \<forall>px \<in> set row. length px = 3 \<and> (\<forall>v \<in> set px. 0 \<le> v \<and> v \<le> 255))"

text \<open>
  The raw buffer in the words of the specification: for each row a filter byte 0, then
  the three bytes R, G, B of each pixel, in row order.
\<close>

definition scanlines :: "canvas \<Rightarrow> byte list" where
  "scanlines cv =
     concat (map (\<lambda>row. 0 # concat (map (\<lambda>px. [word_of_int (px ! 0), word_of_int (px ! 1), word_of_int (px ! 2)]) row)) cv)"

text \<open>Two stand-ins for \<open>zlib.compress\<close>: one that returns given bytes, one that fails.\<close>

definition compress_returns :: "byte list \<Rightarrow> byte list \<Rightarrow> error + byte list" where
  "compress_returns z raw_data = Inr z"

definition compress_fails :: "error \<Rightarrow> byte list \<Rightarrow> error + byte list" where
  "compress_fails e raw_data = Inl e"

section \<open>Sequencing of exceptions\<close>

lemma ebind_Inr [simp]: "ebind (Inr v) f = f v"
  by (simp add: ebind_def)

lemma ebind_Inl [simp]: "ebind (Inl e) f = Inl e"
  by (simp add: ebind_def)

section \<open>Properties of binary64 rounding\<close>

lemma round_half_even_int: "round_half_even (of_int n) = n"
  by (simp add: round_half_even_def)

lemma binary64_zero: "binary64 0 = 0"
  by (simp add: binary64_def)

lemma binary64_power_of_two:
  assumes "- 1022 \<le> k"
  shows "binary64 (2 powr of_int k) = 2 powr of_int k"
proof -
  have e: "max \<lfloor>log 2 \<bar>2 powr of_int k\<bar>\<rfloor> (- 1022) = k"
    using assms by simp
  have "2 powr of_int k / 2 powr (of_int k - 52) = (2 :: real) powr 52"
    by (simp add: powr_diff [symmetric])
  also have "\<dots> = of_int (2 ^ 52)"
    by (simp add: powr_numeral)
  finally have q: "2 powr of_int k / 2 powr (of_int k - 52) = (of_int (2 ^ 52) :: real)" .
  have r: "(of_int (round_half_even (of_int (2 ^ 52))) :: real) = 2 powr 52"
    unfolding round_half_even_int by (simp add: powr_numeral)
  have "binary64 (2 powr of_int k) = 2 powr (of_int k - 52) * of_int (round_half_even (of_int (2 ^ 52)))"
    unfolding binary64_def Let_def e q by simp
  also have "\<dots> = 2 powr (of_int k - 52) * 2 powr 52"
    by (simp only: r)
  also have "\<dots> = 2 powr (of_int k - 52 + 52)"
    by (simp only: powr_add)
  also have "\<dots> = 2 powr of_int k"
    by simp
  finally show ?thesis .
qed

lemma binary64_underflow:
  assumes "0 < a" and "a \<le> 2 powr (- 1075)"
  shows "binary64 a = 0"
proof -
  have "log 2 a \<le> log 2 (2 powr (- 1075))"
    using assms by (simp del: log_powr_cancel)
  then have "log 2 a \<le> - 1075" by simp
  then have "\<lfloor>log 2 a\<rfloor> \<le> - 1075" by (simp add: floor_le_iff)
  then have e: "max \<lfloor>log 2 \<bar>a\<bar>\<rfloor> (- 1022) = - 1022"
    using assms(1) by simp
  define y where "y = a / 2 powr (- 1074)"
  have "y \<le> 2 powr (- 1075) / 2 powr (- 1074)"
    unfolding y_def using assms(2) by (simp add: divide_right_mono)
  also have "\<dots> = 2 powr (- 1)" by (simp add: powr_diff [symmetric])
  also have "\<dots> = 1/2" by (simp add: powr_minus_divide)
  finally have y1: "y \<le> 1/2" .
  have y0: "0 < y" unfolding y_def using assms(1) by simp
  from y0 y1 have f: "\<lfloor>y\<rfloor> = 0" by (simp add: floor_eq_iff)
  have "round_half_even y = 0"
    using y0 y1 by (simp add: round_half_even_def f)
  then show ?thesis
    using assms(1) unfolding binary64_def Let_def e by (simp add: y_def)
qed

lemma binary64_normal_pos:
  assumes "2 powr (- 1022) \<le> a"
  shows "0 < binary64 a"
proof -
  have a0: "0 < a" using assms by (rule less_le_trans [rotated]) simp
  define e where "e = \<lfloor>log 2 a\<rfloor>"
  have "log 2 (2 powr (- 1022)) \<le> log 2 a"
    using assms a0 by (simp del: log_powr_cancel)
  then have "- 1022 \<le> log 2 a" by simp
  then have e1: "- 1022 \<le> e" unfolding e_def by (simp add: le_floor_iff)
  then have em: "max \<lfloor>log 2 \<bar>a\<bar>\<rfloor> (- 1022) = e"
    using a0 by (simp add: e_def)
  have "of_int e \<le> log 2 a" unfolding e_def by simp
  then have "2 powr of_int e \<le> 2 powr log 2 a" by simp
  then have ea: "2 powr of_int e \<le> a" using a0 by simp
  define y where "y = a / 2 powr (of_int e - 52)"
  have "2 powr of_int e / 2 powr (of_int e - 52) \<le> y"
    unfolding y_def using ea by (simp add: divide_right_mono)
  moreover have "2 powr of_int e / 2 powr (of_int e - 52) = (2 :: real) powr 52"
    by (simp add: powr_diff [symmetric])
  moreover have "(1 :: real) \<le> 2 powr 52" by (simp add: powr_numeral)
  ultimately have "1 \<le> y" by simp
  then have "1 \<le> \<lfloor>y\<rfloor>" by (simp add: le_floor_iff)
  then have f1: "0 < \<lfloor>y\<rfloor>" by linarith
  have f2: "\<lfloor>y\<rfloor> \<le> round_half_even y"
    by (simp add: round_half_even_def Let_def)
  from f1 f2 have "0 < round_half_even y" by (rule less_le_trans)
  then have "0 < 2 powr (of_int e - 52) * (of_int (round_half_even y) :: real)" by simp
  then show ?thesis
    using a0 unfolding binary64_def Let_def em y_def by simp
qed
















lemma binary64_one: "binary64 1 = 1"
  using binary64_power_of_two [of 0] by simp


section \<open>Properties of the t-test\<close>

text \<open>
  C3. When either sample has fewer than two observations, the t-test fails with the
  \<open>InsufficientSamples\<close> error: the caller gets the error and no pair of statistic and
  p-value.
\<close>

theorem welch_insufficient_samples:
  assumes "length sample_a < 2 \<or> length sample_b < 2"
  shows "manual_welchs_ttest F sample_a sample_b = Inl InsufficientSamples"
  using assms by (simp add: manual_welchs_ttest_def)

theorem welch_insufficient_samples_witness:
  "\<forall>F. manual_welchs_ttest F [1] [1, 2] = Inl InsufficientSamples"
  using welch_insufficient_samples [of "[1]" "[1, 2]"] by simp

text \<open>
  C5. For two samples of at least two observations each, when the standard error computed
  from their variances is 0 the t-test returns statistic 0.0 and p-value 1.0: it raises
  nothing, and in particular it does not divide by the standard error, which would raise.
\<close>

theorem welch_zero_standard_error:
  assumes "2 \<le> length sample_a" and "2 \<le> length sample_b"
    and "variance F sample_a = Inr var1" and "variance F sample_b = Inr var2"
    and "standard_error F var1 (length sample_a) var2 (length sample_b) = Inr 0"
  shows "manual_welchs_ttest F sample_a sample_b = Inr (0, 1)"
proof -
  from assms(1,2) have "\<exists>m. mean F sample_a = Inr m" and "\<exists>m. mean F sample_b = Inr m"
    by (auto simp: mean_def)
  with assms show ?thesis
    by (auto simp: manual_welchs_ttest_def Let_def)
qed

theorem welch_zero_standard_error_witness:
  "\<forall>F. manual_welchs_ttest (F\<lparr>rnd := binary64\<rparr>) [5, 5, 5, 5] [5, 5, 5, 5] = Inr (0, 1)"
proof
  fix F :: fp
  have v: "variance (F\<lparr>rnd := binary64\<rparr>) [5, 5, 5, 5] = Inr 0"
    by (simp add: variance_def binary64_zero)
  have se: "standard_error (F\<lparr>rnd := binary64\<rparr>) 0 (length [5, 5, 5, 5 :: real]) 0 (length [5, 5, 5, 5 :: real]) = Inr 0"
    by (simp add: standard_error_def fdiv_def fadd_def math_sqrt_def binary64_zero)
  show "manual_welchs_ttest (F\<lparr>rnd := binary64\<rparr>) [5, 5, 5, 5] [5, 5, 5, 5] = Inr (0, 1)"
    using welch_zero_standard_error [OF _ _ v v se] by simp
qed

text \<open>
  Where the t-test of a sample against itself returns, it returns statistic 0.0 and
  p-value 1.0: the difference of the means is 0, and the CDF at 0 is 0.5.
\<close>

lemma ebind_eq_Inr: "ebind m f = Inr r \<longleftrightarrow> (\<exists>v. m = Inr v \<and> f v = Inr r)"
  by (cases m) simp_all

lemma two_tailed_zero:
  assumes "rnd F 1 = 1" and "rnd F (1/2) = 1/2"
  shows "two_tailed_p_value F 0 df = Inr 1"
  using assms by (simp add: two_tailed_p_value_def student_t_cdf_def fmul_def fsub_def)

lemma welch_identical_when_returns:
  assumes r: "rnd F 0 = 0" "rnd F 1 = 1" "rnd F (1/2) = 1/2"
    and ret: "manual_welchs_ttest F sample_a sample_a = Inr (t_stat, p_value)"
  shows "t_stat = 0 \<and> p_value = 1"
proof -
  from ret obtain mean1 var1 se where
    se: "standard_error F var1 (length sample_a) var1 (length sample_a) = Inr se"
    and rest: "(if se = 0 then Inr (0, 1)
          else ebind (fdiv F (fsub F mean1 mean1) se) (\<lambda>t_stat.
               ebind (welch_df F var1 (length sample_a) var1 (length sample_a)) (\<lambda>df.
               ebind (two_tailed_p_value F t_stat df) (\<lambda>p_value. Inr (t_stat, p_value)))))
         = Inr (t_stat, p_value)"
    by (auto simp: manual_welchs_ttest_def Let_def ebind_eq_Inr split: if_splits)
  show ?thesis
  proof (cases "se = 0")
    case True
    with rest show ?thesis by simp
  next
    case False
    then have "fdiv F (fsub F mean1 mean1) se = Inr 0"
      using r(1) by (simp add: fdiv_def fsub_def)
    with rest False show ?thesis
      by (auto simp: ebind_eq_Inr two_tailed_zero [OF r(2,3)])
  qed
qed

lemma welch_identical_binary64:
  assumes "manual_welchs_ttest (F\<lparr>rnd := binary64\<rparr>) sample_a sample_a = Inr (t_stat, p_value)"
  shows "t_stat = 0 \<and> p_value = 1"
proof -
  have "binary64 (1/2) = 1/2"
    using binary64_power_of_two [of "- 1"] by (simp add: powr_minus_divide)
  then show ?thesis
    by (intro welch_identical_when_returns [OF _ _ _ assms]) (simp_all add: binary64_zero binary64_one)
qed

text \<open>The sample \<open>[0.0, 2.0 ** -300]\<close>, step by step.\<close>

lemma two_powr_half: "2 powr x / 2 = (2 :: real) powr (x - 1)"
  by (simp add: powr_diff)

lemma two_powr_square: "(2 powr x)\<^sup>2 = (2 :: real) powr (2 * x)"
  by (simp add: power2_eq_square powr_add [symmetric])

lemma welch_underflow_general:
  assumes r0: "rnd F 0 = 0"
    and r301: "rnd F (2 powr (- 301)) = 2 powr (- 301)"
    and r601: "rnd F (2 powr (- 601)) = 2 powr (- 601)"
    and r602: "rnd F (2 powr (- 602)) = 2 powr (- 602)"
    and u1: "m_pow F (2 powr (- 601)) 2 = 0"
    and u2: "m_pow F (2 powr (- 602)) 2 = 0"
    and s: "rnd F (sqrt (2 powr (- 601))) \<noteq> 0"
  shows "manual_welchs_ttest F [0, 2 powr (- 300)] [0, 2 powr (- 300)] = Inl ZeroDivisionError"
proof -
  define a :: "real list" where "a = [0, 2 powr (- 300)]"
  have len: "length a = 2" by (simp add: a_def)
  have c: "sum_list a / real (length a) = 2 powr (- 301)"
    by (simp add: a_def two_powr_half)
  have m: "mean F a = Inr (2 powr (- 301))"
    unfolding mean_def c using len r301 by simp
  have d: "2 powr (- 300) - 2 powr (- 301) = (2 :: real) powr (- 301)"
    using two_powr_half [of "- 300"] by simp
  have ss: "(\<Sum>x\<leftarrow>a. (x - 2 powr (- 301))\<^sup>2) = 2 powr (- 601)"
    using two_powr_half [of "- 601"] by (simp add: a_def d two_powr_square)
  have v: "variance F a = Inr (2 powr (- 601))"
    unfolding variance_def Let_def c ss using len r601 by simp
  have h: "fdiv F (2 powr (- 601)) 2 = Inr (2 powr (- 602))"
    using two_powr_half [of "- 601"] r602 by (simp add: fdiv_def)
  have "2 powr (- 602) + 2 powr (- 602) = (2 :: real) powr (- 601)"
    using two_powr_half [of "- 601"] by simp
  then have sum: "fadd F (2 powr (- 602)) (2 powr (- 602)) = 2 powr (- 601)"
    unfolding fadd_def by (simp only: r601)
  have se: "standard_error F (2 powr (- 601)) 2 (2 powr (- 601)) 2 = Inr (rnd F (sqrt (2 powr (- 601))))"
    by (simp add: standard_error_def h sum math_sqrt_def)
  have t: "fdiv F (fsub F (2 powr (- 301)) (2 powr (- 301))) (rnd F (sqrt (2 powr (- 601)))) = Inr 0"
    using s r0 by (simp add: fdiv_def fsub_def)
  have p1: "float_pow F (2 powr (- 601)) 2 = Inr 0" and p2: "float_pow F (2 powr (- 602)) 2 = Inr 0"
    using u1 u2 by (simp_all add: float_pow_def)
  have z: "fdiv F 0 1 = Inr 0" "fadd F 0 0 = 0"
    using r0 by (simp_all add: fdiv_def fadd_def)
  have df: "welch_df F (2 powr (- 601)) 2 (2 powr (- 601)) 2 = Inl ZeroDivisionError"
    by (simp add: welch_df_def h sum p1 p2 z) (simp add: fdiv_def)
  have "manual_welchs_ttest F a a = Inl ZeroDivisionError"
    using s by (simp add: manual_welchs_ttest_def len m v se t df)
  then show ?thesis by (simp add: a_def)
qed

lemma sqrt_normal: "2 powr (- 1022) \<le> sqrt (2 powr (- 601))"
proof -
  have "sqrt (2 powr (- 601)) = (2 powr (- 601)) powr (1/2)"
    by (simp add: powr_half_sqrt)
  also have "\<dots> = 2 powr (- 601 / 2)"
    by (simp add: powr_powr)
  finally have "sqrt (2 powr (- 601)) = 2 powr (- 601 / 2)" .
  then show ?thesis by (simp add: powr_mono)
qed

text \<open>
  C4. The t-test of a sample against itself is claimed to return statistic 0.0 and
  p-value 1.0 for every sample of at least two finite values. For the sample
  \<open>[0.0, 2.0 ** -300]\<close> the code raises \<open>ZeroDivisionError\<close> instead: the standard error
  is not zero, but the squares in the degrees of freedom underflow to zero, and the code
  divides by their sum. The arithmetic is binary64, with a power function that rounds
  the exact power.
\<close>

theorem welch_identical_underflow:
  "\<forall>F. manual_welchs_ttest (F\<lparr>rnd := binary64, m_pow := \<lambda>a b. binary64 (a powr b)\<rparr>)
          [0, 2 powr (- 300)] [0, 2 powr (- 300)]
        = Inl ZeroDivisionError"
proof
  fix F :: fp
  have p: "binary64 (2 powr (- 301)) = 2 powr (- 301)" "binary64 (2 powr (- 601)) = 2 powr (- 601)"
    "binary64 (2 powr (- 602)) = 2 powr (- 602)"
    using binary64_power_of_two [of "- 301"] binary64_power_of_two [of "- 601"]
      binary64_power_of_two [of "- 602"] by simp_all
  have u: "binary64 ((2 powr (- 601))\<^sup>2) = 0" "binary64 ((2 powr (- 602))\<^sup>2) = 0"
    unfolding two_powr_square by (rule binary64_underflow; simp)+
  have s: "binary64 (sqrt (2 powr (- 601))) \<noteq> 0"
    using binary64_normal_pos [OF sqrt_normal] by simp
  show "manual_welchs_ttest (F\<lparr>rnd := binary64, m_pow := \<lambda>a b. binary64 (a powr b)\<rparr>)
          [0, 2 powr (- 300)] [0, 2 powr (- 300)]
        = Inl ZeroDivisionError"
    by (rule welch_underflow_general) (simp_all add: binary64_zero p u s)
qed

section \<open>Properties of the Student-t CDF\<close>

text \<open>
  C10. The interval count chosen for Simpson's rule is 1000 or 2000, never odd: the
  increment of an odd count does not happen, and the integration runs with exactly 1000
  or exactly 2000 subintervals.
\<close>

theorem simpson_intervals_even:
  "initial_intervals x mod 2 \<noteq> 1
   \<and> even_intervals (initial_intervals x) = initial_intervals x
   \<and> (even_intervals (initial_intervals x) = 1000 \<or> even_intervals (initial_intervals x) = 2000)"
  by (simp add: initial_intervals_def even_intervals_def)

















section \<open>Properties of the font and of text rendering\<close>

lemma font_items_shape:
  "\<forall>(c, g) \<in> set FONT_items. length g = 5 \<and>
     (\<forall>r \<in> set g. length r = (if c = CHR ''('' \<or> c = CHR '')'' then 2 else 3) \<and> set r \<subseteq> {CHR ''1'', CHR '' ''})"
  by (simp add: FONT_items_def)

lemma FONT_shape:
  assumes "FONT ch = Some g"
  shows "length g = 5"
    and "\<forall>r \<in> set g. length r = (if ch = of_char (CHR ''('') \<or> ch = of_char (CHR '')'') then 2 else 3)
            \<and> set r \<subseteq> {CHR ''1'', CHR '' ''}"
proof -
  from assms have "(ch, g) \<in> set (map (\<lambda>(c, g). (of_char c, g)) FONT_items)"
    unfolding FONT_def by (rule map_of_SomeD)
  then obtain c where ch: "ch = of_char c" and mem: "(c, g) \<in> set FONT_items"
    by auto
  from mem font_items_shape show "length g = 5" by fastforce
  from mem font_items_shape
  have "\<forall>r \<in> set g. length r = (if c = CHR ''('' \<or> c = CHR '')'' then 2 else 3)
            \<and> set r \<subseteq> {CHR ''1'', CHR '' ''}"
    by fastforce
  moreover have "(of_char c :: nat) = 40 \<longleftrightarrow> c = CHR ''(''"
    using of_char_eq_iff [of c "CHR ''(''", where ?'a = nat] by simp
  moreover have "(of_char c :: nat) = 41 \<longleftrightarrow> c = CHR '')''"
    using of_char_eq_iff [of c "CHR '')''", where ?'a = nat] by simp
  ultimately show "\<forall>r \<in> set g. length r = (if ch = of_char (CHR ''('') \<or> ch = of_char (CHR '')'') then 2 else 3)
            \<and> set r \<subseteq> {CHR ''1'', CHR '' ''}"
    unfolding ch by simp
qed

lemma FONT_getitem_space:
  "FONT_getitem space = Inr [''   '', ''   '', ''   '', ''   '', ''   '']"
  by (simp add: FONT_getitem_def space_def FONT_def FONT_items_def)

lemma set_pixel_ok:
  assumes "canvas_ok width height cv" "0 \<le> px" "px < width" "0 \<le> py" "py < height"
  shows "\<exists>cv'. set_pixel cv py px v = Inr cv' \<and> canvas_ok width height cv'"
proof -
  from assms have r: "py_index (length cv) py = Inr (nat py)" and lt: "nat py < length cv"
    by (auto simp: py_index_def canvas_ok_def)
  from assms lt have len: "int (length (cv ! nat py)) = width"
    by (auto simp: canvas_ok_def)
  with assms have c: "py_index (length (cv ! nat py)) px = Inr (nat px)"
    by (auto simp: py_index_def)
  have "canvas_ok width height (cv[nat py := (cv ! nat py)[nat px := v]])"
    using assms(1) len by (auto simp: canvas_ok_def dest!: set_update_subset_insert [THEN subsetD])
  with r c show ?thesis by (simp add: set_pixel_def)
qed

lemma draw_glyph_row_ok:
  "canvas_ok width height cv \<Longrightarrow>
   \<exists>cv'. draw_glyph_row width height x y gy color row gx cv = Inr cv' \<and> canvas_ok width height cv'"
proof (induction row arbitrary: gx cv)
  case Nil
  then show ?case by simp
next
  case (Cons val vals)
  show ?case
  proof (cases "val = CHR ''1'' \<and> 0 \<le> x + gx \<and> x + gx < width \<and> 0 \<le> y + gy \<and> y + gy < height")
    case True
    with set_pixel_ok [OF Cons.prems, of "x + gx" "y + gy" "[fst color, fst (snd color), snd (snd color)]"]
    obtain cv1 where "set_pixel cv (y + gy) (x + gx) [fst color, fst (snd color), snd (snd color)] = Inr cv1"
      and "canvas_ok width height cv1" by auto
    with True Cons.IH [of cv1 "gx + 1"] show ?thesis by (simp add: Let_def)
  next
    case False
    with Cons.IH [OF Cons.prems, of "gx + 1"] show ?thesis by (auto simp: Let_def)
  qed
qed

lemma draw_glyph_ok:
  "canvas_ok width height cv \<Longrightarrow>
   \<exists>cv'. draw_glyph width height x y color g gy cv = Inr cv' \<and> canvas_ok width height cv'"
proof (induction g arbitrary: gy cv)
  case Nil
  then show ?case by simp
next
  case (Cons row rows)
  from draw_glyph_row_ok [OF Cons.prems, of x y gy color row 0]
  obtain cv1 where "draw_glyph_row width height x y gy color row 0 cv = Inr cv1"
    and "canvas_ok width height cv1" by auto
  with Cons.IH [of cv1 "gy + 1"] show ?case by simp
qed

lemma draw_char_ok:
  assumes "canvas_ok width height cv"
  shows "\<exists>cv' x'. draw_char width height y color ch x cv = Inr (cv', x') \<and> canvas_ok width height cv'"
proof -
  define glyph where "glyph = (case FONT ch of Some g \<Rightarrow> g | None \<Rightarrow> [''   '', ''   '', ''   '', ''   '', ''   ''])"
  have "length glyph = 5"
    using FONT_shape(1) [of ch] by (auto simp: glyph_def split: option.splits)
  then obtain row0 rest where g: "glyph = row0 # rest" by (cases glyph) auto
  from draw_glyph_ok [OF assms, of x y color glyph 0]
  obtain cv1 where "draw_glyph width height x y color glyph 0 cv = Inr cv1" "canvas_ok width height cv1"
    by auto
  then show ?thesis
    using g by (simp add: draw_char_def lookup_glyph_def FONT_getitem_space glyph_def [symmetric])
qed

lemma draw_chars_ok:
  "canvas_ok width height cv \<Longrightarrow>
   \<exists>cv' x'. draw_chars width height y color chs x cv = Inr (cv', x') \<and> canvas_ok width height cv'"
proof (induction chs arbitrary: x cv)
  case Nil
  then show ?case by simp
next
  case (Cons ch chs)
  from draw_char_ok [OF Cons.prems, of y color ch x]
  obtain cv1 x1 where "draw_char width height y color ch x cv = Inr (cv1, x1)"
    and "canvas_ok width height cv1" by auto
  with Cons.IH [of cv1 x1] show ?case by simp
qed

lemma draw_chars_append:
  "draw_chars width height y color (as @ bs) x cv =
     (case draw_chars width height y color as x cv of
        Inl e \<Rightarrow> Inl e
      | Inr (cv', x') \<Rightarrow> draw_chars width height y color bs x' cv')"
  by (induction as arbitrary: x cv) (auto split: sum.splits)

lemma draw_char_blank:
  "FONT ch = None \<or> ch = space \<Longrightarrow> draw_char width height y color ch x cv = Inr (cv, x + 4)"
  by (auto simp: draw_char_def lookup_glyph_def FONT_getitem_space)
     (simp add: space_def FONT_def FONT_items_def)

lemma str_upper_append: "str_upper ext (as @ bs) = str_upper ext as @ str_upper ext bs"
  by (simp add: str_upper_def)

lemma upper_char_space: "upper_char ext space = [space]"
  by (simp add: upper_char_def space_def)

lemma draw_chars_blank:
  "\<forall>u \<in> set us. FONT u = None \<Longrightarrow>
   draw_chars width height y color us x cv = Inr (cv, x + 4 * int (length us))"
  by (induction us arbitrary: x) (simp_all add: draw_char_blank)

lemma draw_chars_spaces:
  "draw_chars width height y color (replicate n space) x cv = Inr (cv, x + 4 * int n)"
  by (induction n arbitrary: x) (simp_all add: draw_char_blank)

lemma str_upper_spaces: "str_upper ext (replicate n space) = replicate n space"
  by (induction n) (simp_all add: str_upper_def upper_char_space)

text \<open>
  C8, as stated, fails for a character whose upper-case form has several characters.
  U+0390 is not a key of the font, and neither are the three characters of its
  upper-case form: each is drawn as a blank glyph, so the cursor moves by 12 pixels, not
  by the 4 of a space, and the \<open>1\<close> that follows is drawn at another place.
\<close>

theorem draw_text_advance_counterexample:
  "FONT 0x390 = None
   \<and> draw_text 16 1 special_casing [0x390, 0x31] 0 0 (0, 0, 0) (create_canvas 16 1 (255, 255, 255)) =
       Inr [[[255, 255, 255], [255, 255, 255], [255, 255, 255], [255, 255, 255],
             [255, 255, 255], [255, 255, 255], [255, 255, 255], [255, 255, 255],
             [255, 255, 255], [255, 255, 255], [255, 255, 255], [255, 255, 255],
             [255, 255, 255], [0, 0, 0], [255, 255, 255], [255, 255, 255]]]
   \<and> draw_text 16 1 special_casing [0x20, 0x31] 0 0 (0, 0, 0) (create_canvas 16 1 (255, 255, 255)) =
       Inr [[[255, 255, 255], [255, 255, 255], [255, 255, 255], [255, 255, 255],
             [255, 255, 255], [0, 0, 0], [255, 255, 255], [255, 255, 255],
             [255, 255, 255], [255, 255, 255], [255, 255, 255], [255, 255, 255],
             [255, 255, 255], [255, 255, 255], [255, 255, 255], [255, 255, 255]]]"
  by (simp add: draw_text_def str_upper_def upper_char_def special_casing_def create_canvas_def
        draw_char_def lookup_glyph_def FONT_getitem_def space_def FONT_def FONT_items_def
        set_pixel_def py_index_def Let_def)
     (simp add: eval_nat_numeral)

text \<open>
  C8, amended. Rendering text on the canvas of the closure raises nothing for a character
  that the font does not map. Such a character, one whose upper-case form consists of
  characters that are not keys of the font, is drawn as blank glyphs, one for each
  character of its upper-case form: each leaves the canvas as it is and moves the cursor by
  4 pixels, as a space does, and the rendering of the whole text is the rendering of the
  same text with as many spaces in its place. When the upper-case form is one character,
  as for every ASCII character, that is one space, and every later character lands where
  it would have.
\<close>

theorem draw_text_unsupported:
  assumes "canvas_ok width height cv"
    and "upper_char ext c = us" and "\<forall>u \<in> set us. FONT u = None"
  shows "(\<forall>x0 cv0. draw_chars width height y color us x0 cv0 = Inr (cv0, x0 + 4 * int (length us))
            \<and> draw_char width height y color space x0 cv0 = Inr (cv0, x0 + 4))
       \<and> (\<exists>r. draw_text width height ext (p @ c # q) x y color cv = Inr r
            \<and> draw_text width height ext (p @ replicate (length us) space @ q) x y color cv = Inr r)"
proof
  show "\<forall>x0 cv0. draw_chars width height y color us x0 cv0 = Inr (cv0, x0 + 4 * int (length us))
            \<and> draw_char width height y color space x0 cv0 = Inr (cv0, x0 + 4)"
    using assms(3) by (simp add: draw_chars_blank draw_char_blank)
next
  from draw_chars_ok [OF assms(1), of y color "str_upper ext p" x]
  obtain cv1 x1 where p: "draw_chars width height y color (str_upper ext p) x cv = Inr (cv1, x1)"
    and ok1: "canvas_ok width height cv1" by auto
  from draw_chars_ok [OF ok1, of y color "str_upper ext q" "x1 + 4 * int (length us)"]
  obtain cv2 x2 where q: "draw_chars width height y color (str_upper ext q) (x1 + 4 * int (length us)) cv1 = Inr (cv2, x2)"
    by auto
  have c: "str_upper ext (p @ c # q) = str_upper ext p @ us @ str_upper ext q"
    using assms(2) by (simp add: str_upper_def)
  have s: "str_upper ext (p @ replicate (length us) space @ q)
      = str_upper ext p @ replicate (length us) space @ str_upper ext q"
    by (simp add: str_upper_append str_upper_spaces)
  have "draw_text width height ext (p @ c # q) x y color cv = Inr cv2"
    using p q assms(3) by (simp add: draw_text_def c draw_chars_append draw_chars_blank)
  moreover have "draw_text width height ext (p @ replicate (length us) space @ q) x y color cv = Inr cv2"
    using p q by (simp add: draw_text_def s draw_chars_append draw_chars_spaces)
  ultimately show "\<exists>r. draw_text width height ext (p @ c # q) x y color cv = Inr r
            \<and> draw_text width height ext (p @ replicate (length us) space @ q) x y color cv = Inr r"
    by simp
qed

theorem draw_text_unsupported_witness:
  "(\<exists>r. draw_text 12 5 special_casing (map of_char ''a@i'') 0 0 (0, 0, 0) (create_canvas 12 5 (255, 255, 255)) = Inr r
       \<and> draw_text 12 5 special_casing (map of_char ''a i'') 0 0 (0, 0, 0) (create_canvas 12 5 (255, 255, 255)) = Inr r)
   \<and> map_sum id (\<lambda>cv. cv ! 0 ! 8)
         (draw_text 12 5 special_casing (map of_char ''a i'') 0 0 (0, 0, 0) (create_canvas 12 5 (255, 255, 255)))
       = Inr [0, 0, 0]
   \<and> (\<exists>r. draw_text 16 1 special_casing [0x390, 0x31] 0 0 (0, 0, 0) (create_canvas 16 1 (255, 255, 255)) = Inr r
       \<and> draw_text 16 1 special_casing [0x20, 0x20, 0x20, 0x31] 0 0 (0, 0, 0) (create_canvas 16 1 (255, 255, 255)) = Inr r)"
proof -
  have ok: "canvas_ok 12 5 (create_canvas 12 5 (255, 255, 255))"
    and ok': "canvas_ok 16 1 (create_canvas 16 1 (255, 255, 255))"
    by (simp_all add: canvas_ok_def create_canvas_def)
  have up: "upper_char special_casing (of_char (CHR ''@'')) = [of_char (CHR ''@'')]"
    and up': "upper_char special_casing 0x390 = [0x399, 0x308, 0x301]"
    by (simp_all add: upper_char_def special_casing_def)
  have absent: "\<forall>u \<in> set [of_char (CHR ''@'')]. FONT u = None"
    and absent': "\<forall>u \<in> set [0x399, 0x308, 0x301]. FONT u = None"
    by (simp_all add: FONT_def FONT_items_def)
  have later: "map_sum id (\<lambda>cv. cv ! 0 ! 8)
         (draw_text 12 5 special_casing (map of_char ''a i'') 0 0 (0, 0, 0) (create_canvas 12 5 (255, 255, 255)))
       = Inr [0, 0, 0]"
    by (simp add: draw_text_def str_upper_def upper_char_def special_casing_def create_canvas_def
          draw_char_def lookup_glyph_def FONT_getitem_def space_def FONT_def FONT_items_def
          set_pixel_def py_index_def Let_def)
  show ?thesis
    using draw_text_unsupported [OF ok up absent, of 0 "(0, 0, 0)" "[of_char (CHR ''a'')]" "[of_char (CHR ''i'')]" 0]
      draw_text_unsupported [OF ok' up' absent', of 0 "(0, 0, 0)" "[]" "[0x31]" 0]
      later
    by (simp add: space_def eval_nat_numeral)
qed

text \<open>
  C7, as stated, fails: the glyphs of the two parentheses are 2 cells wide, not 3.
\<close>

theorem font_glyph_width_counterexample:
  "map_option (map length) (FONT (of_char (CHR ''(''))) = Some [2, 2, 2, 2, 2]
   \<and> map_option (map length) (FONT (of_char (CHR '')''))) = Some [2, 2, 2, 2, 2]"
  by (simp add: FONT_def FONT_items_def)

text \<open>
  C7, amended. Every glyph of the font is a grid of on/off cells (\<open>1\<close> or blank) of 5
  rows; its rows are 3 cells wide, except for the glyphs of \<open>(\<close> and \<open>)\<close>, whose rows are
  2 cells wide. The font is a fixed mapping from the supported characters to glyphs, and
  a character it does not map is given the glyph of the space, which is blank.
\<close>

theorem font_glyph_shape:
  "(\<forall>ch g. FONT ch = Some g \<longrightarrow>
      length g = 5 \<and>
      (\<forall>r \<in> set g. length r = (if ch = of_char (CHR ''('') \<or> ch = of_char (CHR '')'') then 2 else 3)
                    \<and> set r \<subseteq> {CHR ''1'', CHR '' ''}))
   \<and> (\<forall>ch. FONT ch = None \<longrightarrow> lookup_glyph ch = lookup_glyph space)
   \<and> lookup_glyph space = Inr [''   '', ''   '', ''   '', ''   '', ''   '']"
  using FONT_shape
  by (auto simp: lookup_glyph_def FONT_getitem_space)
     (simp_all add: space_def FONT_def FONT_items_def)

theorem font_glyph_shape_witness:
  "FONT (of_char (CHR ''A'')) = Some ['' 1 '', ''1 1'', ''111'', ''1 1'', ''1 1'']
   \<and> FONT (of_char (CHR ''@'')) = None
   \<and> lookup_glyph (of_char (CHR ''@'')) = Inr [''   '', ''   '', ''   '', ''   '', ''   '']"
proof -
  have a: "FONT (of_char (CHR ''A'')) = Some ['' 1 '', ''1 1'', ''111'', ''1 1'', ''1 1'']"
    and b: "FONT (of_char (CHR ''@'')) = None"
    by (simp_all add: FONT_def FONT_items_def)
  from font_glyph_shape b have "lookup_glyph (of_char (CHR ''@'')) = Inr [''   '', ''   '', ''   '', ''   '', ''   '']"
    by metis
  with a b show ?thesis by simp
qed

section \<open>Properties of the PNG encoder\<close>

lemma to_bytes4_length: "n < 2 ^ 32 \<Longrightarrow> to_bytes4 (int n) = Inr (be32 (of_nat n))"
  by (simp add: to_bytes4_def)

lemma to_bytes4_crc: "to_bytes4 (uint ((c :: 32 word) AND 0xFFFFFFFF)) = Inr (be32 c)"
proof -
  have m: "(0xFFFFFFFF :: 32 word) = - 1" by simp
  have "c AND 0xFFFFFFFF = c" unfolding m by simp
  moreover have "uint c < 2 ^ 32" using uint_bounded [of c] by simp
  ultimately show ?thesis by (simp add: to_bytes4_def)
qed

lemma chunk_layout:
  "length data < 2 ^ 32 \<Longrightarrow>
   chunk ty data = Inr (be32 (of_nat (length data)) @ ty @ data @ be32 (crc32 (ty @ data)))"
  by (simp add: chunk_def Let_def to_bytes4_length to_bytes4_crc)

lemma bytes_of_rgb:
  assumes "length px = 3" and "\<forall>v \<in> set px. 0 \<le> v \<and> v \<le> 255"
  shows "bytes_of px = Inr [word_of_int (px ! 0), word_of_int (px ! 1), word_of_int (px ! 2)]"
proof -
  from assms(1) obtain a b c where "px = [a, b, c]"
    by (auto simp: length_Suc_conv numeral_3_eq_3)
  with assms(2) show ?thesis by (simp add: bytes_of_def)
qed

lemma extend_pixels_rgb:
  "\<forall>px \<in> set row. length px = 3 \<and> (\<forall>v \<in> set px. 0 \<le> v \<and> v \<le> 255) \<Longrightarrow>
   extend_pixels row raw_data =
     Inr (raw_data @ concat (map (\<lambda>px. [word_of_int (px ! 0), word_of_int (px ! 1), word_of_int (px ! 2)]) row))"
  by (induction row arbitrary: raw_data) (simp_all add: bytes_of_rgb)

lemma append_rows_rgb:
  "rgb_pixels cv \<Longrightarrow> append_rows cv raw_data = Inr (raw_data @ scanlines cv)"
proof (induction cv arbitrary: raw_data)
  case Nil
  then show ?case by (simp add: scanlines_def)
next
  case (Cons row rows)
  from Cons.prems have row: "\<forall>px \<in> set row. length px = 3 \<and> (\<forall>v \<in> set px. 0 \<le> v \<and> v \<le> 255)"
    and rest: "rgb_pixels rows"
    by (simp_all add: rgb_pixels_def)
  show ?case
    using Cons.IH [OF rest] by (simp add: extend_pixels_rgb [OF row] scanlines_def)
qed

lemma ihdr_pack:
  "0 \<le> w \<Longrightarrow> w < 2 ^ 32 \<Longrightarrow> 0 \<le> h \<Longrightarrow> h < 2 ^ 32 \<Longrightarrow>
   struct_pack_IIBBBBB w h 8 2 0 0 0 = Inr (be32 (word_of_int w) @ be32 (word_of_int h) @ [8, 2, 0, 0, 0])"
  by (simp add: struct_pack_IIBBBBB_def)

lemma be32_length: "length (be32 w) = 4"
  by (simp add: be32_def)

text \<open>
  C1. For a canvas of positive width and height the encoder writes the 8-byte signature
  and then three chunks, IHDR, IDAT and IEND in this order, and raises nothing. Each
  chunk is the length of its data in 4 bytes, big-endian, its 4-byte type, the data, and
  the CRC-32 of type and data in 4 bytes, big-endian. The data of IHDR are the width and
  the height in 4 bytes each, big-endian, then the bytes 8, 2, 0, 0, 0; the data of IDAT
  are the compressed scanlines; IEND has no data. Width, height and the length of the
  compressed data fit in 4 bytes.
\<close>

theorem write_png_layout:
  assumes "canvas_ok w h rgb_matrix" and "rgb_pixels rgb_matrix"
    and "0 < w" and "w < 2 ^ 32" and "0 < h" and "h < 2 ^ 32"
    and "compress (scanlines rgb_matrix) = Inr z" and "length z < 2 ^ 32"
  shows "write_png compress rgb_matrix =
    \<lparr>written = Some (
        png_signature
        @ be32 13 @ ascii ''IHDR''
          @ (be32 (word_of_int w) @ be32 (word_of_int h) @ [8, 2, 0, 0, 0])
          @ be32 (crc32 (ascii ''IHDR'' @ be32 (word_of_int w) @ be32 (word_of_int h) @ [8, 2, 0, 0, 0]))
        @ be32 (of_nat (length z)) @ ascii ''IDAT'' @ z @ be32 (crc32 (ascii ''IDAT'' @ z))
        @ be32 0 @ ascii ''IEND'' @ [] @ be32 (crc32 (ascii ''IEND'' @ []))),
     raised = None\<rparr>"
proof -
  from assms(1,5) have ne: "rgb_matrix \<noteq> []" and hh: "int (length rgb_matrix) = h"
    by (auto simp: canvas_ok_def)
  then have "hd rgb_matrix \<in> set rgb_matrix" by simp
  with assms(1) have ww: "int (length (hd rgb_matrix)) = w"
    by (simp add: canvas_ok_def)
  have hdr: "ebind (struct_pack_IIBBBBB w h 8 2 0 0 0) (chunk (ascii ''IHDR'')) =
      Inr (be32 13 @ ascii ''IHDR'' @ (be32 (word_of_int w) @ be32 (word_of_int h) @ [8, 2, 0, 0, 0])
           @ be32 (crc32 (ascii ''IHDR'' @ be32 (word_of_int w) @ be32 (word_of_int h) @ [8, 2, 0, 0, 0])))"
    using assms(3-6) by (simp add: ihdr_pack chunk_layout be32_length)
  have idat: "ebind (compress (scanlines rgb_matrix)) (chunk (ascii ''IDAT'')) =
      Inr (be32 (of_nat (length z)) @ ascii ''IDAT'' @ z @ be32 (crc32 (ascii ''IDAT'' @ z)))"
    using assms(7,8) by (simp add: chunk_layout)
  have iend: "chunk (ascii ''IEND'') [] = Inr (be32 0 @ ascii ''IEND'' @ [] @ be32 (crc32 (ascii ''IEND'' @ [])))"
    using chunk_layout [of "[]" "ascii ''IEND''"] by simp
  have raw: "append_rows rgb_matrix [] = Inr (scanlines rgb_matrix)"
    using append_rows_rgb [OF assms(2), of "[]"] by simp
  show ?thesis
    using ne assms(5)
    by (simp add: write_png_def hh ww raw hdr idat iend Let_def)
qed


lemma red_pixel_canvas:
  "canvas_ok 1 1 [[[255, 0, 0]]]" "rgb_pixels [[[255, 0, 0]]]" "scanlines [[[255, 0, 0]]] = [0, 255, 0, 0]"
  by (simp_all add: canvas_ok_def rgb_pixels_def scanlines_def)

theorem write_png_layout_witness:
  "write_png (compress_returns [0x78, 0xDA, 0x63, 0xF8, 0xCF, 0xC0, 0, 0, 3, 1, 1, 0]) [[[255, 0, 0]]] =
    \<lparr>written = Some
       [137, 80, 78, 71, 13, 10, 26, 10,
        0, 0, 0, 13, 73, 72, 68, 82, 0, 0, 0, 1, 0, 0, 0, 1, 8, 2, 0, 0, 0, 144, 119, 83, 222,
        0, 0, 0, 12, 73, 68, 65, 84, 120, 218, 99, 248, 207, 192, 0, 0, 3, 1, 1, 0, 247, 3, 65, 67,
        0, 0, 0, 0, 73, 69, 78, 68, 174, 66, 96, 130],
     raised = None\<rparr>"
proof -
  have z: "compress_returns [0x78, 0xDA, 0x63, 0xF8, 0xCF, 0xC0, 0, 0, 3, 1, 1, 0] (scanlines [[[255, 0, 0]]])
      = Inr [0x78, 0xDA, 0x63, 0xF8, 0xCF, 0xC0, 0, 0, 3, 1, 1, 0]"
    by (simp add: compress_returns_def)
  have c1: "crc32 (ascii ''IHDR'' @ be32 1 @ be32 1 @ [8, 2, 0, 0, 0]) = 0x907753DE"
    by (simp add: crc32_def ascii_def be32_def crc32_byte_def crc32_bit_def)
  have c2: "crc32 (ascii ''IDAT'' @ [0x78, 0xDA, 0x63, 0xF8, 0xCF, 0xC0, 0, 0, 3, 1, 1, 0]) = 0xF7034143"
    by (simp add: crc32_def ascii_def crc32_byte_def crc32_bit_def)
  have c3: "crc32 (ascii ''IEND'') = 0xAE426082"
    by (simp add: crc32_def ascii_def crc32_byte_def crc32_bit_def)
  show ?thesis
    using write_png_layout [of 1 1 "[[[255, 0, 0]]]"
        "compress_returns [0x78, 0xDA, 0x63, 0xF8, 0xCF, 0xC0, 0, 0, 3, 1, 1, 0]"
        "[0x78, 0xDA, 0x63, 0xF8, 0xCF, 0xC0, 0, 0, 3, 1, 1, 0]", OF red_pixel_canvas(1,2) _ _ _ _ z]
      c1 c2 c3
    by (simp add: png_signature_def ascii_def be32_def)
qed

text \<open>
  C2, as stated, fails. For a canvas of height 0 the encoder raises nothing and writes a
  file whose header declares a 0 by 0 image. When compression fails, the signature and
  the IHDR chunk are already written: the file is left truncated.
\<close>

theorem write_png_no_error_counterexample:
  "write_png (compress_returns [0x78, 0xDA, 3, 0, 0, 0, 0, 1]) [] =
     \<lparr>written = Some
        [137, 80, 78, 71, 13, 10, 26, 10,
         0, 0, 0, 13, 73, 72, 68, 82, 0, 0, 0, 0, 0, 0, 0, 0, 8, 2, 0, 0, 0, 180, 233, 235, 69,
         0, 0, 0, 8, 73, 68, 65, 84, 120, 218, 3, 0, 0, 0, 0, 1, 111, 221, 201, 145,
         0, 0, 0, 0, 73, 69, 78, 68, 174, 66, 96, 130],
      raised = None\<rparr>
   \<and> write_png (compress_fails ZlibError) [[[255, 0, 0]]] =
     \<lparr>written = Some
        [137, 80, 78, 71, 13, 10, 26, 10,
         0, 0, 0, 13, 73, 72, 68, 82, 0, 0, 0, 1, 0, 0, 0, 1, 8, 2, 0, 0, 0, 144, 119, 83, 222],
      raised = Some ZlibError\<rparr>"
proof -
  have c0: "crc32 (ascii ''IHDR'' @ be32 0 @ be32 0 @ [8, 2, 0, 0, 0]) = 0xB4E9EB45"
    by (simp add: crc32_def ascii_def be32_def crc32_byte_def crc32_bit_def)
  have c1: "crc32 (ascii ''IHDR'' @ be32 1 @ be32 1 @ [8, 2, 0, 0, 0]) = 0x907753DE"
    by (simp add: crc32_def ascii_def be32_def crc32_byte_def crc32_bit_def)
  have c2: "crc32 (ascii ''IDAT'' @ [0x78, 0xDA, 3, 0, 0, 0, 0, 1]) = 0x6FDDC991"
    by (simp add: crc32_def ascii_def crc32_byte_def crc32_bit_def)
  have c3: "crc32 (ascii ''IEND'') = 0xAE426082"
    by (simp add: crc32_def ascii_def crc32_byte_def crc32_bit_def)
  have h0: "struct_pack_IIBBBBB 0 0 8 2 0 0 0 = Inr (be32 0 @ be32 0 @ [8, 2, 0, 0, 0])"
    and h1: "struct_pack_IIBBBBB 1 1 8 2 0 0 0 = Inr (be32 1 @ be32 1 @ [8, 2, 0, 0, 0])"
    by (simp_all add: struct_pack_IIBBBBB_def)
  have a: "write_png (compress_returns [0x78, 0xDA, 3, 0, 0, 0, 0, 1]) [] =
     \<lparr>written = Some
        [137, 80, 78, 71, 13, 10, 26, 10,
         0, 0, 0, 13, 73, 72, 68, 82, 0, 0, 0, 0, 0, 0, 0, 0, 8, 2, 0, 0, 0, 180, 233, 235, 69,
         0, 0, 0, 8, 73, 68, 65, 84, 120, 218, 3, 0, 0, 0, 0, 1, 111, 221, 201, 145,
         0, 0, 0, 0, 73, 69, 78, 68, 174, 66, 96, 130],
      raised = None\<rparr>"
    using c0 c2 c3
    by (simp add: write_png_def h0 compress_returns_def chunk_layout be32_length)
       (simp add: png_signature_def ascii_def be32_def)
  have b: "write_png (compress_fails ZlibError) [[[255, 0, 0]]] =
     \<lparr>written = Some
        [137, 80, 78, 71, 13, 10, 26, 10,
         0, 0, 0, 13, 73, 72, 68, 82, 0, 0, 0, 1, 0, 0, 0, 1, 8, 2, 0, 0, 0, 144, 119, 83, 222],
      raised = Some ZlibError\<rparr>"
    using c1
    by (simp add: write_png_def h1 compress_fails_def chunk_layout be32_length bytes_of_def)
       (simp add: png_signature_def ascii_def be32_def)
  from a b show ?thesis by (rule conjI)
qed

text \<open>
  C2, amended. The encoder does not check its canvas and has no recovery path. For a
  canvas of height 0 it raises nothing and writes the signature, an IHDR chunk that
  declares width 0 and height 0, an IDAT chunk with the compressed empty buffer and the
  IEND chunk. When compression fails, the error reaches the caller, and the file holds the
  signature and the IHDR chunk, written before compression, and nothing else.
\<close>

theorem write_png_no_recovery:
  "(compress [] = Inr z \<and> length z < 2 ^ 32 \<longrightarrow>
      write_png compress [] =
        \<lparr>written = Some (
            png_signature
            @ be32 13 @ ascii ''IHDR'' @ (be32 0 @ be32 0 @ [8, 2, 0, 0, 0])
              @ be32 (crc32 (ascii ''IHDR'' @ be32 0 @ be32 0 @ [8, 2, 0, 0, 0]))
            @ be32 (of_nat (length z)) @ ascii ''IDAT'' @ z @ be32 (crc32 (ascii ''IDAT'' @ z))
            @ be32 0 @ ascii ''IEND'' @ be32 (crc32 (ascii ''IEND''))),
         raised = None\<rparr>)
   \<and> (canvas_ok w h rgb_matrix \<and> rgb_pixels rgb_matrix \<and> 0 < h \<and> w < 2 ^ 32 \<and> h < 2 ^ 32
        \<and> compress' (scanlines rgb_matrix) = Inl e \<longrightarrow>
      write_png compress' rgb_matrix =
        \<lparr>written = Some (
            png_signature
            @ be32 13 @ ascii ''IHDR'' @ (be32 (word_of_int w) @ be32 (word_of_int h) @ [8, 2, 0, 0, 0])
              @ be32 (crc32 (ascii ''IHDR'' @ be32 (word_of_int w) @ be32 (word_of_int h) @ [8, 2, 0, 0, 0]))),
         raised = Some e\<rparr>)"
proof (intro conjI impI)
  assume "compress [] = Inr z \<and> length z < 2 ^ 32"
  then show "write_png compress [] =
        \<lparr>written = Some (
            png_signature
            @ be32 13 @ ascii ''IHDR'' @ (be32 0 @ be32 0 @ [8, 2, 0, 0, 0])
              @ be32 (crc32 (ascii ''IHDR'' @ be32 0 @ be32 0 @ [8, 2, 0, 0, 0]))
            @ be32 (of_nat (length z)) @ ascii ''IDAT'' @ z @ be32 (crc32 (ascii ''IDAT'' @ z))
            @ be32 0 @ ascii ''IEND'' @ be32 (crc32 (ascii ''IEND''))),
         raised = None\<rparr>"
    using ihdr_pack [of 0 0] by (simp add: write_png_def chunk_layout be32_length)
next
  assume a: "canvas_ok w h rgb_matrix \<and> rgb_pixels rgb_matrix \<and> 0 < h \<and> w < 2 ^ 32 \<and> h < 2 ^ 32
        \<and> compress' (scanlines rgb_matrix) = Inl e"
  then have ne: "rgb_matrix \<noteq> []" and hh: "int (length rgb_matrix) = h"
    by (auto simp: canvas_ok_def)
  then have "hd rgb_matrix \<in> set rgb_matrix" by simp
  with a have ww: "int (length (hd rgb_matrix)) = w"
    by (simp add: canvas_ok_def)
  then have w0: "0 \<le> w" by auto
  have raw: "append_rows rgb_matrix [] = Inr (scanlines rgb_matrix)"
    using append_rows_rgb [of rgb_matrix "[]"] a by simp
  show "write_png compress' rgb_matrix =
        \<lparr>written = Some (
            png_signature
            @ be32 13 @ ascii ''IHDR'' @ (be32 (word_of_int w) @ be32 (word_of_int h) @ [8, 2, 0, 0, 0])
              @ be32 (crc32 (ascii ''IHDR'' @ be32 (word_of_int w) @ be32 (word_of_int h) @ [8, 2, 0, 0, 0]))),
         raised = Some e\<rparr>"
    using a ne w0 by (simp add: write_png_def hh ww raw ihdr_pack chunk_layout be32_length Let_def)
qed

theorem write_png_no_recovery_witness:
  "write_png (compress_returns [0x78, 0xDA, 3, 0, 0, 0, 0, 1]) [] =
        \<lparr>written = Some (
            png_signature
            @ be32 13 @ ascii ''IHDR'' @ (be32 0 @ be32 0 @ [8, 2, 0, 0, 0])
              @ be32 (crc32 (ascii ''IHDR'' @ be32 0 @ be32 0 @ [8, 2, 0, 0, 0]))
            @ be32 8 @ ascii ''IDAT'' @ [0x78, 0xDA, 3, 0, 0, 0, 0, 1]
              @ be32 (crc32 (ascii ''IDAT'' @ [0x78, 0xDA, 3, 0, 0, 0, 0, 1]))
            @ be32 0 @ ascii ''IEND'' @ be32 (crc32 (ascii ''IEND''))),
         raised = None\<rparr>
   \<and> write_png (compress_fails ZlibError) [[[255, 0, 0]]] =
        \<lparr>written = Some (
            png_signature
            @ be32 13 @ ascii ''IHDR'' @ (be32 1 @ be32 1 @ [8, 2, 0, 0, 0])
              @ be32 (crc32 (ascii ''IHDR'' @ be32 1 @ be32 1 @ [8, 2, 0, 0, 0]))),
         raised = Some ZlibError\<rparr>"
  using write_png_no_recovery [of "compress_returns [0x78, 0xDA, 3, 0, 0, 0, 0, 1]" "[0x78, 0xDA, 3, 0, 0, 0, 0, 1]"
      1 1 "[[[255, 0, 0]]]" "compress_fails ZlibError" ZlibError]
    red_pixel_canvas
  by (simp add: compress_returns_def compress_fails_def)


end
